theory Spec2Isabelle
  imports Complex_Main
begin

section \<open>Data model\<close>

text \<open>
  The notebook computes on Python floats and numpy arrays. Finite numbers are modelled as
  reals, an array of shape (n,) as a list of reals, a Python integer as \<open>int\<close>. A raised
  Python exception is the left summand of \<open>error + 'a\<close>. The process-wide random stream of
  numpy is an explicit state of type \<open>'g\<close>, passed to every sampling call and returned by
  it, in the order in which the source makes the calls.
\<close>

datatype error = TypeError | ZeroDivisionError | ValueError

text \<open>The class name of a raised exception, as Python reports it.\<close>

definition exception_name :: "error \<Rightarrow> string" where
  "exception_name e =
     (case e of
        TypeError \<Rightarrow> ''TypeError''
      | ZeroDivisionError \<Rightarrow> ''ZeroDivisionError''
      | ValueError \<Rightarrow> ''ValueError'')"

type_synonym sample_set = "real list"

subsection \<open>Floating-point values of the threshold computation\<close>

text \<open>
  The threshold computation of the notebook reaches the values of a double that are not
  finite numbers: the quantile lookup returns \<open>inf\<close> at 1 and \<open>nan\<close> outside the unit
  interval, and the mean of an empty array is \<open>nan\<close>. numpy raises no exception for them
  (it warns), so they are values of the model. Zeros carry no sign here.
\<close>

datatype fnum = Finite real | PosInf | NegInf | NaN

fun fsign :: "fnum \<Rightarrow> real" where
  "fsign (Finite a) = sgn a"
| "fsign PosInf = 1"
| "fsign NegInf = - 1"
| "fsign NaN = 0"

fun fmul :: "fnum \<Rightarrow> fnum \<Rightarrow> fnum" where
  "fmul (Finite a) (Finite b) = Finite (a * b)"
| "fmul NaN y = NaN"
| "fmul x NaN = NaN"
| "fmul x y =
     (if 0 < fsign x * fsign y then PosInf
      else if fsign x * fsign y < 0 then NegInf
      else NaN)"

fun fdiv :: "fnum \<Rightarrow> fnum \<Rightarrow> fnum" where
  "fdiv (Finite a) (Finite b) =
     (if b = 0 then (if 0 < a then PosInf else if a < 0 then NegInf else NaN)
      else Finite (a / b))"
| "fdiv NaN y = NaN"
| "fdiv x NaN = NaN"
| "fdiv (Finite a) y = Finite 0"
| "fdiv x (Finite b) = (if 0 \<le> b then x else if x = PosInf then NegInf else PosInf)"
| "fdiv x y = NaN"

text \<open>The comparison \<open>\<le>\<close> of doubles: false as soon as one side is \<open>nan\<close>.\<close>

fun fle :: "fnum \<Rightarrow> fnum \<Rightarrow> bool" where
  "fle NaN y = False"
| "fle x NaN = False"
| "fle (Finite a) (Finite b) = (a \<le> b)"
| "fle NegInf y = True"
| "fle x PosInf = True"
| "fle x y = False"

text \<open>
  Finite arithmetic is exact in the model, with one exception: the difference \<open>1 - pfa\<close>
  is rounded to the nearest double (ties to even, 53 significant bits), since this
  rounding turns the difference into 1.0 for a small \<open>pfa\<close> and the quantile into \<open>inf\<close>.
  \<open>float64 x\<close> is the double nearest to \<open>x\<close>, for \<open>x\<close> in the range of normal doubles.
\<close>

definition round_half_even :: "real \<Rightarrow> int" where
  "round_half_even x =
     (let f = \<lfloor>x\<rfloor>; d = x - of_int f
      in if d < 1 / 2 then f else if 1 / 2 < d then f + 1 else if even f then f else f + 1)"

definition float64 :: "real \<Rightarrow> real" where
  "float64 x =
     (if x = 0 then 0
      else (let e = \<lfloor>log 2 \<bar>x\<bar>\<rfloor>; ulp = 2 powr (of_int e - 52)
            in of_int (round_half_even (x / ulp)) * ulp))"

subsection \<open>The library objects the notebook calls\<close>

text \<open>
  \<open>scipy.stats.gamma.rvs(a, scale, size)\<close> and \<open>scipy.stats.rayleigh.rvs(loc, scale, size)\<close>
  are parameters of the functions that call them: a sampler takes the two distribution
  parameters, the number of samples and the stream, and returns the samples with the
  advanced stream.
\<close>

type_synonym 'g sampler = "real \<Rightarrow> real \<Rightarrow> int \<Rightarrow> 'g \<Rightarrow> sample_set \<times> 'g"

text \<open>
  What the claims use of the two samplers: a call with a non-negative size returns that
  many samples; Gamma samples are non-negative; Rayleigh samples with a positive scale are
  at least the location parameter.
\<close>

definition returns_size :: "'g sampler \<Rightarrow> bool" where
  "returns_size rvs \<longleftrightarrow> (\<forall>a b n g. 0 \<le> n \<longrightarrow> length (fst (rvs a b n g)) = nat n)"

definition gamma_sampler :: "'g sampler \<Rightarrow> bool" where
  "gamma_sampler rvs \<longleftrightarrow>
     returns_size rvs \<and> (\<forall>a sc n g. \<forall>x \<in> set (fst (rvs a sc n g)). 0 \<le> x)"

definition rayleigh_sampler :: "'g sampler \<Rightarrow> bool" where
  "rayleigh_sampler rvs \<longleftrightarrow>
     returns_size rvs \<and> (\<forall>loc sc n g. 0 < sc \<longrightarrow> (\<forall>x \<in> set (fst (rvs loc sc n g)). loc \<le> x))"

text \<open>
  \<open>kstwobign()\<close> is the frozen Kolmogorov distribution object; the notebook calls its
  quantile function \<open>ppf\<close> and its \<open>mean()\<close>.
\<close>

record ks_dist =
  dist_ppf :: "real \<Rightarrow> fnum"
  dist_mean :: real

text \<open>
  What the claims use of the Kolmogorov distribution: its mean is positive; its quantile
  function is \<open>nan\<close> outside the unit interval, 0 at 0 (the lower end of the support),
  \<open>inf\<close> at 1 (the upper end), and finite, positive and strictly increasing on the open
  unit interval.
\<close>

definition kolmogorov_like :: "ks_dist \<Rightarrow> bool" where
  "kolmogorov_like K \<longleftrightarrow>
     0 < dist_mean K
     \<and> (\<forall>q. q < 0 \<or> 1 < q \<longrightarrow> dist_ppf K q = NaN)
     \<and> dist_ppf K 0 = Finite 0
     \<and> dist_ppf K 1 = PosInf
     \<and> (\<forall>q. 0 < q \<and> q < 1 \<longrightarrow> (\<exists>x. 0 < x \<and> dist_ppf K q = Finite x))
     \<and> (\<forall>p q x y. 0 < p \<and> p < q \<and> q < 1 \<and> dist_ppf K p = Finite x \<and> dist_ppf K q = Finite y
           \<longrightarrow> x < y)"

text \<open>
  A clutter SampleSet is a non-empty sequence of positive backscatter magnitudes, as
  \<open>generate_clutter_data\<close> returns them (Gamma samples above a positive floor).
\<close>

definition clutter_sample_set :: "sample_set \<Rightarrow> bool" where
  "clutter_sample_set data \<longleftrightarrow> data \<noteq> [] \<and> (\<forall>x \<in> set data. 0 < x)"

subsection \<open>numpy operations\<close>

definition np_add_scalar :: "sample_set \<Rightarrow> real \<Rightarrow> sample_set" where
  "np_add_scalar xs c = map (\<lambda>x. x + c) xs"

text \<open>Adding two one-dimensional arrays: equal shapes, or one of them of length 1.\<close>

definition np_add :: "sample_set \<Rightarrow> sample_set \<Rightarrow> error + sample_set" where
  "np_add xs ys =
     (if length xs = length ys then Inr (map2 (+) xs ys)
      else if length xs = 1 then Inr (map (\<lambda>y. hd xs + y) ys)
      else if length ys = 1 then Inr (map (\<lambda>x. x + hd ys) xs)
      else Inl ValueError)"

definition np_mean :: "sample_set \<Rightarrow> fnum" where
  "np_mean xs = (if xs = [] then NaN else Finite (sum_list xs / real (length xs)))"

definition np_zeros_like :: "sample_set \<Rightarrow> real list" where
  "np_zeros_like xs = replicate (length xs) 0"

definition np_ones_like :: "sample_set \<Rightarrow> real list" where
  "np_ones_like xs = replicate (length xs) 1"

section \<open>The computation functions of the notebook\<close>

subsection \<open>generate_clutter_data\<close>

definition generate_clutter_data ::
  "'g sampler \<Rightarrow> real \<Rightarrow> 'g \<Rightarrow> (string \<times> sample_set) list \<times> 'g" where
  "generate_clutter_data gamma_rvs nesz g0 =
     (let nesz_linear = 10 powr (nesz / 10);
          (s1, g1) = gamma_rvs 2 1 1000 g0;
          (s2, g2) = gamma_rvs 2 2 1000 g1;
          (s3, g3) = gamma_rvs 2 3 1000 g2;
          (s4, g4) = gamma_rvs 2 4 1000 g3;
          (s5, g5) = gamma_rvs 2 5 1000 g4
      in ([(''Sea State 1: Calm (rippled) - Wave Height: 0 - 0.1m'', np_add_scalar s1 nesz_linear),
           (''Sea State 2: Smooth (wavelets) - Wave Height: 0.1 - 0.5m'', np_add_scalar s2 nesz_linear),
           (''Sea State 3: Slight - Wave Height: 0.5 - 1.25m'', np_add_scalar s3 nesz_linear),
           (''Sea State 4: Moderate - Wave Height: 1.25 - 2.5m'', np_add_scalar s4 nesz_linear),
           (''Sea State 5: Rough - Wave Height: 2.5 - 4.0m'', np_add_scalar s5 nesz_linear)],
          g5))"

subsection \<open>estimate_pixels\<close>

definition estimate_pixels :: "real \<Rightarrow> real \<Rightarrow> error + int" where
  "estimate_pixels target_length ground_resolution =
     (if ground_resolution = 0 then Inl ZeroDivisionError
      else Inr (max 1 \<lceil>target_length / ground_resolution\<rceil>))"

subsection \<open>generate_target_data\<close>

text \<open>
  \<open>rcs\<close> is \<open>None\<close> for the catalogue entry without a target; \<open>rcs * snr_linear\<close> then
  raises TypeError, after the two conversions to linear scale and before any sample is
  drawn.
\<close>

definition generate_target_data ::
  "'g sampler \<Rightarrow> 'g sampler \<Rightarrow> real option \<Rightarrow> real \<Rightarrow> int \<Rightarrow> int \<Rightarrow> real \<Rightarrow> 'g
     \<Rightarrow> error + (sample_set \<times> 'g)" where
  "generate_target_data rayleigh_rvs gamma_rvs rcs snr_db size' pixels nesz g0 =
     (let nesz_linear = 10 powr (nesz / 10);
          snr_linear = 10 powr (snr_db / 10)
      in case rcs of
           None \<Rightarrow> Inl TypeError
         | Some r \<Rightarrow>
             (let adjusted_rcs = r * snr_linear;
                  (target_signal, g1) =
                     rayleigh_rvs (adjusted_rcs + nesz_linear) (3 / 2) (size' * pixels) g0;
                  (noise, g2) = gamma_rvs 2 2 (size' * pixels) g1;
                  clutter_noise = np_add_scalar noise nesz_linear
              in case np_add target_signal clutter_noise of
                   Inl e \<Rightarrow> Inl e
                 | Inr out \<Rightarrow> Inr (out, g2)))"

subsection \<open>compute_cfar_threshold\<close>

definition compute_cfar_threshold :: "ks_dist \<Rightarrow> sample_set \<Rightarrow> real \<Rightarrow> fnum" where
  "compute_cfar_threshold k_dist data pfa =
     (let threshold = dist_ppf k_dist (float64 (1 - pfa));
          scale_factor = fdiv (np_mean data) (Finite (dist_mean k_dist))
      in fmul threshold scale_factor)"

subsection \<open>compute_roc_curve\<close>

text \<open>
  Modelled from the spec: \<open>sklearn.metrics.roc_curve\<close> is a library function, not part
  of the notebook. It is the standard ROC curve of a label vector (positive label 1) and a
  binary decision vector: one operating point for each decision value that occurs, taken
  as the detection level in decreasing order, after the point (0, 0); the rates are the
  counts of false and true positives divided by the numbers of negatives and positives.
  The curve is undefined (\<open>None\<close>) when there is no negative or no positive sample.
\<close>

definition roc_curve :: "real list \<Rightarrow> bool list \<Rightarrow> (real list \<times> real list) option" where
  "roc_curve y_true y_score =
     (let levels = filter (\<lambda>v. v \<in> set y_score) [True, False];
          fps = 0 # map (\<lambda>v. real (length (filter (\<lambda>(y, d). y \<noteq> 1 \<and> v \<le> d) (zip y_true y_score)))) levels;
          tps = 0 # map (\<lambda>v. real (length (filter (\<lambda>(y, d). y = 1 \<and> v \<le> d) (zip y_true y_score)))) levels
      in if last fps \<le> 0 \<or> last tps \<le> 0 then None
         else Some (map (\<lambda>c. c / last fps) fps, map (\<lambda>c. c / last tps) tps))"

text \<open>
  Modelled from the spec: \<open>sklearn.metrics.auc\<close> is a library function, not part of the
  notebook. It integrates the curve by the trapezoidal rule, \<open>trapz y x\<close> being the
  integral of the ordinates \<open>y\<close> over the abscissae \<open>x\<close>.
\<close>

fun trapz :: "real list \<Rightarrow> real list \<Rightarrow> real" where
  "trapz (y0 # y1 # ys) (x0 # x1 # xs) =
     (x1 - x0) * (y0 + y1) / 2 + trapz (y1 # ys) (x1 # xs)"
| "trapz _ _ = 0"

definition auc :: "real list \<Rightarrow> real list \<Rightarrow> real" where
  "auc x y = trapz y x"

definition compute_roc_curve ::
  "sample_set \<Rightarrow> sample_set \<Rightarrow> real \<Rightarrow> (real list \<times> real list \<times> real) option" where
  "compute_roc_curve clutter_data target_data cfar_threshold =
     (let labels = np_zeros_like clutter_data @ np_ones_like target_data;
          scores = clutter_data @ target_data;
          detections = map (\<lambda>s. cfar_threshold \<le> s) scores
      in case roc_curve labels detections of
           None \<Rightarrow> None
         | Some (fpr, tpr) \<Rightarrow> Some (fpr, tpr, auc fpr tpr))"

text \<open>The fraction of a sample set that the threshold detects.\<close>

definition detection_rate :: "sample_set \<Rightarrow> real \<Rightarrow> real" where
  "detection_rate xs th = real (length (filter (\<lambda>s. th \<le> s) xs)) / real (length xs)"

section \<open>Concrete library instances\<close>

text \<open>
  Instances of the library parameters on which the theorems below are applied: two
  samplers over a counter as the random stream, and a table of the Kolmogorov
  distribution (its quantiles at 0.5, 0.9 and 0.99 to four decimals, linear in between,
  \<open>inf\<close> at 1 and \<open>nan\<close> outside the unit interval, and its mean \<open>sqrt (pi / 2) * ln 2\<close> to
  four decimals).
\<close>

definition counter_gamma :: "nat sampler" where
  "counter_gamma a sc n g =
     (map (\<lambda>i. \<bar>a * sc\<bar> * real ((g + i) mod 7)) [0..<nat n], g + nat n)"

definition counter_rayleigh :: "nat sampler" where
  "counter_rayleigh loc sc n g =
     (map (\<lambda>i. loc + sc * real ((g + i) mod 5)) [0..<nat n], g + nat n)"

definition ks_table :: ks_dist where
  "ks_table =
     \<lparr>dist_ppf = (\<lambda>q. if q < 0 \<or> 1 < q then NaN
                      else if q = 1 then PosInf
                      else if q \<le> 1 / 2 then Finite ((8276 / 5000) * q)
                      else if q \<le> 9 / 10 then Finite (8276 / 10000 + (q - 1 / 2) * (3962 / 4000))
                      else Finite (12238 / 10000 + (q - 9 / 10) * (4038 / 900))),
      dist_mean = 8687 / 10000\<rparr>"

section \<open>Facts about the library parameters and the numpy operations\<close>

lemma sampler_length:
  "returns_size rvs \<Longrightarrow> 0 \<le> n \<Longrightarrow> rvs a b n g = (xs, g') \<Longrightarrow> length xs = nat n"
  unfolding returns_size_def by (metis fst_conv)

lemma gamma_sampler_nonneg:
  "gamma_sampler rvs \<Longrightarrow> rvs a b n g = (xs, g') \<Longrightarrow> x \<in> set xs \<Longrightarrow> 0 \<le> x"
  unfolding gamma_sampler_def by (metis fst_conv)

lemma rayleigh_sampler_lower:
  "rayleigh_sampler rvs \<Longrightarrow> 0 < sc \<Longrightarrow> rvs loc sc n g = (xs, g') \<Longrightarrow> x \<in> set xs \<Longrightarrow> loc \<le> x"
  unfolding rayleigh_sampler_def by (metis fst_conv)

lemma counter_gamma_sampler: "gamma_sampler counter_gamma"
  by (simp add: gamma_sampler_def returns_size_def counter_gamma_def)

lemma counter_rayleigh_sampler: "rayleigh_sampler counter_rayleigh"
  by (simp add: rayleigh_sampler_def returns_size_def counter_rayleigh_def)

lemma np_add_scalar_floor:
  assumes G: "gamma_sampler rvs" and eq: "rvs a b 1000 g = (xs, g')"
  shows "length (np_add_scalar xs c) = 1000 \<and> (\<forall>x \<in> set (np_add_scalar xs c). c \<le> x)"
proof -
  have "returns_size rvs"
    using G by (simp add: gamma_sampler_def)
  then have "length xs = nat 1000"
    using eq sampler_length [of rvs 1000 a b g xs g'] by simp
  moreover have "\<forall>x \<in> set xs. 0 \<le> x"
    using gamma_sampler_nonneg [OF G eq] by blast
  ultimately show ?thesis
    by (auto simp add: np_add_scalar_def)
qed

lemma np_add_lower:
  assumes "np_add xs ys = Inr zs" "\<forall>x \<in> set xs. a \<le> x" "\<forall>y \<in> set ys. b \<le> y" "z \<in> set zs"
  shows "a + b \<le> z"
proof -
  consider (same) "zs = map2 (+) xs ys"
    | (left) "length xs = 1" "zs = map (\<lambda>y. hd xs + y) ys"
    | (right) "length ys = 1" "zs = map (\<lambda>x. x + hd ys) xs"
    using assms(1) by (auto simp add: np_add_def split: if_splits)
  then show ?thesis
  proof cases
    case same
    then obtain x y where "(x, y) \<in> set (zip xs ys)" "z = x + y"
      using assms(4) by auto
    then show ?thesis
      using assms(2,3) by (metis add_mono set_zip_leftD set_zip_rightD)
  next
    case left
    then have "hd xs \<in> set xs"
      by (cases xs) auto
    then show ?thesis
      using left assms(2,3,4) by (auto intro: add_mono)
  next
    case right
    then have "hd ys \<in> set ys"
      by (cases ys) auto
    then show ?thesis
      using right assms(2,3,4) by (auto intro: add_mono)
  qed
qed

lemma generate_clutter_data_sample_sets:
  assumes G: "gamma_sampler rvs"
    and mem: "(k, xs) \<in> set (fst (generate_clutter_data rvs nesz g))"
  shows "clutter_sample_set xs"
proof -
  let ?fl = "10 powr (nesz / 10)"
  obtain s1 g1 where e1: "rvs 2 1 1000 g = (s1, g1)" by (cases "rvs 2 1 1000 g")
  obtain s2 g2 where e2: "rvs 2 2 1000 g1 = (s2, g2)" by (cases "rvs 2 2 1000 g1")
  obtain s3 g3 where e3: "rvs 2 3 1000 g2 = (s3, g3)" by (cases "rvs 2 3 1000 g2")
  obtain s4 g4 where e4: "rvs 2 4 1000 g3 = (s4, g4)" by (cases "rvs 2 4 1000 g3")
  obtain s5 g5 where e5: "rvs 2 5 1000 g4 = (s5, g5)" by (cases "rvs 2 5 1000 g4")
  have fl: "0 < ?fl"
    by simp
  have ok: "clutter_sample_set (np_add_scalar s ?fl)"
    if "rvs a b 1000 h = (s, h')" for a b h s h'
  proof -
    have sh: "length (np_add_scalar s ?fl) = 1000 \<and> (\<forall>x \<in> set (np_add_scalar s ?fl). ?fl \<le> x)"
      using G that by (rule np_add_scalar_floor)
    then have "np_add_scalar s ?fl \<noteq> []"
      by auto
    moreover have "0 < x" if "x \<in> set (np_add_scalar s ?fl)" for x
    proof -
      have "?fl \<le> x"
        using sh that by blast
      then show ?thesis
        using fl by linarith
    qed
    ultimately show ?thesis
      unfolding clutter_sample_set_def by blast
  qed
  have "xs \<in> {np_add_scalar s1 ?fl, np_add_scalar s2 ?fl, np_add_scalar s3 ?fl,
      np_add_scalar s4 ?fl, np_add_scalar s5 ?fl}"
    using mem by (auto simp add: generate_clutter_data_def Let_def e1 e2 e3 e4 e5)
  then show ?thesis
    using ok [OF e1] ok [OF e2] ok [OF e3] ok [OF e4] ok [OF e5] by auto
qed

section \<open>Rounding to the nearest double\<close>

lemma round_half_even_cases:
  "round_half_even x = \<lfloor>x\<rfloor> \<or> round_half_even x = \<lfloor>x\<rfloor> + 1"
  by (simp add: round_half_even_def Let_def)

lemma round_half_even_of_int: "round_half_even (of_int n) = n"
  by (simp add: round_half_even_def Let_def)

lemma round_half_even_mono: "x \<le> y \<Longrightarrow> round_half_even x \<le> round_half_even y"
proof -
  assume le: "x \<le> y"
  have fl: "\<lfloor>x\<rfloor> \<le> \<lfloor>y\<rfloor>"
    using le by (rule floor_mono)
  show ?thesis
  proof (cases "\<lfloor>x\<rfloor> = \<lfloor>y\<rfloor>")
    case True
    then have "x - of_int \<lfloor>x\<rfloor> \<le> y - of_int \<lfloor>y\<rfloor>"
      using le by simp
    then show ?thesis
      using True by (auto simp add: round_half_even_def Let_def)
  next
    case False
    then have "\<lfloor>x\<rfloor> + 1 \<le> \<lfloor>y\<rfloor>"
      using fl by simp
    moreover have "round_half_even x \<le> \<lfloor>x\<rfloor> + 1"
      using round_half_even_cases [of x] by auto
    moreover have "\<lfloor>y\<rfloor> \<le> round_half_even y"
      using round_half_even_cases [of y] by auto
    ultimately show ?thesis
      by linarith
  qed
qed

lemma round_half_even_ge: "of_int n \<le> x \<Longrightarrow> n \<le> round_half_even x"
  using round_half_even_mono [of "of_int n" x] by (simp add: round_half_even_of_int)

lemma round_half_even_le: "x \<le> of_int n \<Longrightarrow> round_half_even x \<le> n"
  using round_half_even_mono [of x "of_int n"] by (simp add: round_half_even_of_int)


lemma round_half_even_below_half:
  "of_int n \<le> x \<Longrightarrow> x < of_int n + 1 / 2 \<Longrightarrow> round_half_even x = n"
proof -
  assume a: "of_int n \<le> x" "x < of_int n + 1 / 2"
  then have "\<lfloor>x\<rfloor> = n"
    by linarith
  then show ?thesis
    using a by (simp add: round_half_even_def Let_def)
qed

lemma round_half_even_above_half:
  "of_int n + 1 / 2 < x \<Longrightarrow> x \<le> of_int n + 1 \<Longrightarrow> round_half_even x = n + 1"
proof -
  assume a: "of_int n + 1 / 2 < x" "x \<le> of_int n + 1"
  show ?thesis
  proof (cases "x = of_int n + 1")
    case True
    then have "x = of_int (n + 1)"
      by simp
    then show ?thesis
      by (simp only: round_half_even_of_int)
  next
    case False
    then have "\<lfloor>x\<rfloor> = n"
      using a by linarith
    then show ?thesis
      using a by (simp add: round_half_even_def Let_def)
  qed
qed

lemma round_half_even_tie_even: "even n \<Longrightarrow> round_half_even (of_int n + 1 / 2) = n"
proof -
  assume e: "even n"
  have "\<lfloor>of_int n + (1 / 2 :: real)\<rfloor> = n"
    by linarith
  then show ?thesis
    using e by (simp add: round_half_even_def Let_def)
qed

lemma round_half_even_tie_odd: "odd n \<Longrightarrow> round_half_even (of_int n + 1 / 2) = n + 1"
proof -
  assume e: "odd n"
  have "\<lfloor>of_int n + (1 / 2 :: real)\<rfloor> = n"
    by linarith
  then show ?thesis
    using e by (simp add: round_half_even_def Let_def)
qed

lemma binade:
  assumes "0 < x"
  shows "2 powr of_int \<lfloor>log 2 x\<rfloor> \<le> x \<and> x < 2 powr (of_int \<lfloor>log 2 x\<rfloor> + 1)"
  using floor_log_eq_powr_iff [of x 2 "\<lfloor>log 2 x\<rfloor>"] assms by simp

lemma binade_eq:
  assumes "2 powr of_int k \<le> x" "x < 2 powr (of_int k + 1)"
  shows "\<lfloor>log 2 x\<rfloor> = k"
proof -
  have "0 < (2::real) powr of_int k"
    by simp
  then have pos: "0 < x"
    using assms(1) by linarith
  show ?thesis
    using floor_log_eq_powr_iff [of x 2 k] pos assms by simp
qed

lemma scaled_range:
  assumes "0 < x"
  defines "e \<equiv> \<lfloor>log 2 x\<rfloor>"
  shows "2 ^ 52 \<le> x / 2 powr (of_int e - 52)" and "x / 2 powr (of_int e - 52) < 2 ^ 53"
proof -
  have b: "2 powr of_int e \<le> x" "x < 2 powr (of_int e + 1)"
    using binade [OF assms(1)] by (simp_all add: e_def)
  have u: "0 < (2::real) powr (of_int e - 52)"
    by simp
  have "(2::real) powr of_int e = 2 ^ 52 * 2 powr (of_int e - 52)"
    by (simp add: powr_diff)
  then show "2 ^ 52 \<le> x / 2 powr (of_int e - 52)"
    using b(1) u by (simp add: pos_le_divide_eq)
  have "(2::real) powr (of_int e + 1) = 2 ^ 53 * 2 powr (of_int e - 52)"
    by (simp add: powr_diff powr_add)
  then show "x / 2 powr (of_int e - 52) < 2 ^ 53"
    using b(2) u by (simp add: pos_divide_less_eq)
qed

lemma float64_pos_bounds:
  assumes "0 < x"
  shows "2 powr of_int \<lfloor>log 2 x\<rfloor> \<le> float64 x"
    and "float64 x \<le> 2 powr (of_int \<lfloor>log 2 x\<rfloor> + 1)"
proof -
  define e where "e = \<lfloor>log 2 x\<rfloor>"
  define ulp where "ulp = (2::real) powr (of_int e - 52)"
  have u: "0 < ulp"
    by (simp add: ulp_def)
  have f: "float64 x = of_int (round_half_even (x / ulp)) * ulp"
    using assms by (simp add: float64_def Let_def e_def ulp_def)
  have r: "2 ^ 52 \<le> x / ulp" "x / ulp < 2 ^ 53"
    using scaled_range [OF assms] by (simp_all add: e_def ulp_def)
  have "of_int (2 ^ 52) \<le> x / ulp"
    using r(1) by simp
  then have lo: "2 ^ 52 \<le> round_half_even (x / ulp)"
    by (rule round_half_even_ge)
  have "x / ulp \<le> of_int (2 ^ 53)"
    using r(2) by simp
  then have hi: "round_half_even (x / ulp) \<le> 2 ^ 53"
    by (rule round_half_even_le)
  have "(2::real) powr of_int e = 2 ^ 52 * ulp"
    by (simp add: ulp_def powr_diff)
  also have "\<dots> \<le> of_int (round_half_even (x / ulp)) * ulp"
    using lo u by (simp add: mult_right_mono)
  finally show "2 powr of_int \<lfloor>log 2 x\<rfloor> \<le> float64 x"
    by (simp add: f e_def)
  have "of_int (round_half_even (x / ulp)) * ulp \<le> 2 ^ 53 * ulp"
    using hi u by (simp add: mult_right_mono)
  also have "\<dots> = 2 powr (of_int e + 1)"
    by (simp add: ulp_def powr_diff powr_add)
  finally show "float64 x \<le> 2 powr (of_int \<lfloor>log 2 x\<rfloor> + 1)"
    by (simp add: f e_def)
qed

lemma float64_mono_pos:
  assumes "0 < x" "x \<le> y"
  shows "float64 x \<le> float64 y"
proof -
  have y: "0 < y"
    using assms by simp
  have le: "\<lfloor>log 2 x\<rfloor> \<le> \<lfloor>log 2 y\<rfloor>"
    using assms by (intro floor_mono) simp
  show ?thesis
  proof (cases "\<lfloor>log 2 x\<rfloor> = \<lfloor>log 2 y\<rfloor>")
    case True
    define ulp where "ulp = (2::real) powr (of_int \<lfloor>log 2 y\<rfloor> - 52)"
    have u: "0 < ulp"
      by (simp add: ulp_def)
    have "x / ulp \<le> y / ulp"
      using assms(2) u by (simp add: divide_right_mono)
    then have "round_half_even (x / ulp) \<le> round_half_even (y / ulp)"
      by (rule round_half_even_mono)
    then have "of_int (round_half_even (x / ulp)) * ulp \<le> of_int (round_half_even (y / ulp)) * ulp"
      using u by (simp add: mult_right_mono)
    then show ?thesis
      using assms(1) y True by (simp add: float64_def Let_def ulp_def)
  next
    case False
    then have "\<lfloor>log 2 x\<rfloor> + 1 \<le> \<lfloor>log 2 y\<rfloor>"
      using le by simp
    then have "(of_int \<lfloor>log 2 x\<rfloor> + 1 :: real) \<le> of_int \<lfloor>log 2 y\<rfloor>"
      by linarith
    then have "(2::real) powr (of_int \<lfloor>log 2 x\<rfloor> + 1) \<le> 2 powr of_int \<lfloor>log 2 y\<rfloor>"
      by (intro powr_mono) simp_all
    then show ?thesis
      using float64_pos_bounds(2) [OF assms(1)] float64_pos_bounds(1) [OF y] by linarith
  qed
qed

lemma float64_half_binade:
  assumes "1 / 2 \<le> x" "x < 1"
  shows "float64 x = of_int (round_half_even (x * 2 ^ 53)) / 2 ^ 53"
proof -
  have "(2::real) powr of_int (- 1) \<le> x" "x < 2 powr (of_int (- 1) + 1)"
    using assms by (simp_all add: powr_minus_divide)
  then have e: "\<lfloor>log 2 x\<rfloor> = - 1"
    by (rule binade_eq)
  have a: "\<bar>x\<bar> = x" "x \<noteq> 0"
    using assms by simp_all
  have u: "(2::real) powr (- 53) = 1 / 2 ^ 53"
    by (simp add: powr_neg_numeral)
  show ?thesis
    by (simp add: float64_def Let_def a e u)
qed

lemma float64_one_binade:
  assumes "1 \<le> x" "x < 2"
  shows "float64 x = of_int (round_half_even (x * 2 ^ 52)) / 2 ^ 52"
proof -
  have "(2::real) powr of_int 0 \<le> x" "x < 2 powr (of_int 0 + 1)"
    using assms by simp_all
  then have e: "\<lfloor>log 2 x\<rfloor> = 0"
    by (rule binade_eq)
  have a: "\<bar>x\<bar> = x" "x \<noteq> 0"
    using assms by simp_all
  have u: "(2::real) powr (- 52) = 1 / 2 ^ 52"
    by (simp add: powr_neg_numeral)
  show ?thesis
    by (simp add: float64_def Let_def a e u)
qed

lemma float64_one: "float64 1 = 1"
  using float64_one_binade [of 1] round_half_even_of_int [of "2 ^ 52"] by simp

lemma float64_half: "float64 (1 / 2) = 1 / 2"
  using float64_half_binade [of "1 / 2"] round_half_even_of_int [of "2 ^ 52"] by simp

lemma float64_three_quarters: "float64 (3 / 4) = 3 / 4"
  using float64_half_binade [of "3 / 4"] round_half_even_of_int [of "3 * 2 ^ 51"] by simp

lemma float64_rounds_to_one:
  assumes "- (1 / 2 ^ 53) \<le> p" "p \<le> 1 / 2 ^ 54"
  shows "float64 (1 - p) = 1"
proof -
  define K :: int where "K = 2 ^ 53"
  define H :: int where "H = 2 ^ 52"
  have K: "(2::real) ^ 53 = of_int K" "(2::real) ^ 54 = 2 * of_int K" "0 < (of_int K :: real)" "even K"
    by (simp_all add: K_def)
  have H: "(2::real) ^ 52 = of_int H" "(2::real) ^ 53 = 2 * of_int H" "0 < (of_int H :: real)" "even H"
    by (simp_all add: H_def)
  consider (zero) "p = 0" | (pos) "0 < p" | (neg) "p < 0"
    by linarith
  then show ?thesis
  proof cases
    case zero
    then show ?thesis
      by (simp add: float64_one)
  next
    case pos
    have "p \<le> 1 / 2"
      using assms(2) K(2,3) by (simp add: field_simps)
    then have r: "1 / 2 \<le> 1 - p" "1 - p < 1"
      using pos by simp_all
    define t where "t = p * of_int K"
    have t: "0 < t" "t \<le> 1 / 2"
      using pos assms(2) K(3) unfolding t_def K(2) by (simp_all add: field_simps)
    have s: "(1 - p) * of_int K = of_int (K - 1) + (1 - t)"
      by (simp add: t_def algebra_simps)
    have "round_half_even ((1 - p) * of_int K) = (K - 1) + 1"
    proof (cases "t = 1 / 2")
      case True
      have "odd (K - 1)"
        using K(4) by simp
      then have "round_half_even (of_int (K - 1) + 1 / 2) = (K - 1) + 1"
        by (rule round_half_even_tie_odd)
      then show ?thesis
        unfolding s True by simp
    next
      case False
      then have "of_int (K - 1) + 1 / 2 < (1 - p) * of_int K"
        "(1 - p) * of_int K \<le> of_int (K - 1) + 1"
        unfolding s using t by simp_all
      then show ?thesis
        by (rule round_half_even_above_half)
    qed
    then have "float64 (1 - p) = of_int K / of_int K"
      unfolding float64_half_binade [OF r] K(1) by simp
    then show ?thesis
      using K(3) by simp
  next
    case neg
    have "- p \<le> 1 / 2"
      using assms(1) H(2,3) by (simp add: field_simps)
    then have r: "1 \<le> 1 - p" "1 - p < 2"
      using neg by simp_all
    define t where "t = - p * of_int H"
    have "0 < (- p) * of_int H"
      using neg H(3) by (intro mult_pos_pos) simp_all
    moreover have "- p * of_int H \<le> 1 / 2"
      using assms(1) H(3) unfolding H(2) by (simp add: field_simps)
    ultimately have t: "0 < t" "t \<le> 1 / 2"
      unfolding t_def by simp_all
    have s: "(1 - p) * of_int H = of_int H + t"
      by (simp add: t_def algebra_simps)
    have "round_half_even ((1 - p) * of_int H) = H"
    proof (cases "t = 1 / 2")
      case True
      show ?thesis
        unfolding s True using H(4) by (rule round_half_even_tie_even)
    next
      case False
      then have "of_int H \<le> (1 - p) * of_int H"
        "(1 - p) * of_int H < of_int H + 1 / 2"
        unfolding s using t by simp_all
      then show ?thesis
        by (rule round_half_even_below_half)
    qed
    then have "float64 (1 - p) = of_int H / of_int H"
      unfolding float64_one_binade [OF r] H(1) by simp
    then show ?thesis
      using H(3) by simp
  qed
qed

lemma float64_below_one:
  assumes "1 / 2 ^ 54 < p" "p < 1"
  shows "0 < float64 (1 - p) \<and> float64 (1 - p) < 1"
proof
  define K :: int where "K = 2 ^ 53"
  have K: "(2::real) ^ 53 = of_int K" "(2::real) ^ 54 = 2 * of_int K" "0 < (of_int K :: real)"
    by (simp_all add: K_def)
  have x: "0 < 1 - p"
    using assms by simp
  have "0 < (2::real) powr of_int \<lfloor>log 2 (1 - p)\<rfloor>"
    by simp
  then show "0 < float64 (1 - p)"
    using float64_pos_bounds(1) [OF x] by linarith
  show "float64 (1 - p) < 1"
  proof (cases "1 / 2 \<le> 1 - p")
    case True
    then have r: "1 / 2 \<le> 1 - p" "1 - p < 1"
      using assms x by simp_all
    define t where "t = p * of_int K"
    have t: "1 / 2 < t"
      using assms(1) K(3) unfolding t_def K(2) by (simp add: field_simps)
    have s: "(1 - p) * of_int K = of_int (K - 1) + (1 - t)"
      by (simp add: t_def algebra_simps)
    have "round_half_even ((1 - p) * of_int K) \<le> K - 1"
    proof (cases "t \<le> 1")
      case True
      then have "of_int (K - 1) \<le> (1 - p) * of_int K"
        "(1 - p) * of_int K < of_int (K - 1) + 1 / 2"
        unfolding s using t by simp_all
      then have "round_half_even ((1 - p) * of_int K) = K - 1"
        by (rule round_half_even_below_half)
      then show ?thesis
        by simp
    next
      case False
      then have "(1 - p) * of_int K \<le> of_int (K - 1)"
        unfolding s by simp
      then show ?thesis
        by (rule round_half_even_le)
    qed
    then have "(of_int (round_half_even ((1 - p) * of_int K)) :: real) \<le> of_int (K - 1)"
      by (simp only: of_int_le_iff)
    then have "float64 (1 - p) \<le> of_int (K - 1) / of_int K"
      unfolding float64_half_binade [OF r] K(1) using K(3) by (simp add: divide_right_mono)
    also have "\<dots> < 1"
      using K(3) by simp
    finally show ?thesis .
  next
    case False
    have "\<lfloor>log 2 (1 - p)\<rfloor> \<le> - 2"
    proof (rule ccontr)
      assume "\<not> \<lfloor>log 2 (1 - p)\<rfloor> \<le> - 2"
      then have "(- 1 :: real) \<le> of_int \<lfloor>log 2 (1 - p)\<rfloor>"
        by linarith
      then have "(2::real) powr (- 1) \<le> 2 powr of_int \<lfloor>log 2 (1 - p)\<rfloor>"
        by (intro powr_mono) simp_all
      then have "1 / 2 \<le> 1 - p"
        using binade [OF x] by (simp add: powr_minus_divide)
      then show False
        using False by simp
    qed
    then have "(of_int \<lfloor>log 2 (1 - p)\<rfloor> + 1 :: real) \<le> - 1"
      by linarith
    then have "(2::real) powr (of_int \<lfloor>log 2 (1 - p)\<rfloor> + 1) \<le> 2 powr (- 1)"
      by (intro powr_mono) simp_all
    then show ?thesis
      using float64_pos_bounds(2) [OF x] by (simp add: powr_minus_divide)
  qed
qed




section \<open>Facts about the threshold computation\<close>

lemma ks_table_kolmogorov_like: "kolmogorov_like ks_table"
proof -
  let ?f = "dist_ppf ks_table"
  have "0 < dist_mean ks_table"
    by (simp add: ks_table_def)
  moreover have "\<forall>q. q < 0 \<or> 1 < q \<longrightarrow> ?f q = NaN"
    by (simp add: ks_table_def)
  moreover have "?f 0 = Finite 0" "?f 1 = PosInf"
    by (simp_all add: ks_table_def)
  moreover have "\<forall>q. 0 < q \<and> q < 1 \<longrightarrow> (\<exists>x. 0 < x \<and> ?f q = Finite x)"
  proof (intro allI impI)
    fix q :: real
    assume q: "0 < q \<and> q < 1"
    let ?v = "if q \<le> 1 / 2 then (8276 / 5000) * q
              else if q \<le> 9 / 10 then 8276 / 10000 + (q - 1 / 2) * (3962 / 4000)
              else 12238 / 10000 + (q - 9 / 10) * (4038 / 900)"
    have "?f q = Finite ?v"
      using q by (simp add: ks_table_def)
    moreover have "0 < ?v"
      using q by (simp add: add_pos_nonneg)
    ultimately show "\<exists>x. 0 < x \<and> ?f q = Finite x"
      by blast
  qed
  moreover have "\<forall>p q x y. 0 < p \<and> p < q \<and> q < 1 \<and> ?f p = Finite x \<and> ?f q = Finite y \<longrightarrow> x < y"
    by (auto simp add: ks_table_def split: if_splits) (simp_all add: field_simps)
  ultimately show ?thesis
    unfolding kolmogorov_like_def by blast
qed

lemma sum_list_positive:
  "data \<noteq> [] \<Longrightarrow> \<forall>x \<in> set data. (0::real) < x \<Longrightarrow> 0 < sum_list data"
proof (induction data)
  case Nil
  then show ?case by simp
next
  case (Cons a data)
  show ?case
  proof (cases "data = []")
    case True
    then show ?thesis using Cons.prems by simp
  next
    case False
    then have "0 < sum_list data" using Cons by simp
    then show ?thesis using Cons.prems by simp
  qed
qed

lemma np_mean_scale: "np_mean (map ((*) c) data) = fmul (Finite c) (np_mean data)"
proof (cases "data = []")
  case True
  then show ?thesis by (simp add: np_mean_def)
next
  case False
  have "sum_list (map ((*) c) data) = c * sum_list data"
    by (induction data) (simp_all add: algebra_simps)
  then show ?thesis using False by (simp add: np_mean_def)
qed

lemma fmul_scale_left:
  assumes "0 < c"
  shows "fmul t (fmul (Finite c) s) = fmul (Finite c) (fmul t s)"
  using assms
  by (cases t; cases s) (auto simp add: sgn_if zero_less_mult_iff mult_less_0_iff)

lemma fdiv_scale_left:
  assumes "0 < c"
  shows "fdiv (fmul (Finite c) m) (Finite k) = fmul (Finite c) (fdiv m (Finite k))"
  using assms
  by (cases m) (auto simp add: sgn_if zero_less_mult_iff mult_less_0_iff)

lemma fmul_fdiv_scale:
  assumes "0 < c"
  shows "fmul t (fdiv (fmul (Finite c) m) (Finite k)) = fmul (Finite c) (fmul t (fdiv m (Finite k)))"
  by (simp only: fdiv_scale_left [OF assms] fmul_scale_left [OF assms])

lemma fmul_mono_right:
  assumes "0 < s" "fle x y"
  shows "fle (fmul x (Finite s)) (fmul y (Finite s))"
  using assms by (cases x; cases y) (auto simp add: sgn_if zero_less_mult_iff mult_less_0_iff)

lemma ppf_monotone:
  assumes K: "kolmogorov_like K" and a: "0 < a" "a \<le> b" "b \<le> 1"
  shows "fle (dist_ppf K a) (dist_ppf K b)"
proof (cases "b = 1")
  case True
  then have b: "dist_ppf K b = PosInf"
    using K by (simp add: kolmogorov_like_def)
  show ?thesis
  proof (cases "a = 1")
    case True
    then show ?thesis using b \<open>b = 1\<close> by simp
  next
    case False
    then have "0 < a \<and> a < 1" using a \<open>b = 1\<close> by simp
    then obtain x where "dist_ppf K a = Finite x"
      using K unfolding kolmogorov_like_def by blast
    then show ?thesis using b by simp
  qed
next
  case False
  then have b: "0 < b \<and> b < 1" using a by simp
  then obtain y where y: "dist_ppf K b = Finite y"
    using K unfolding kolmogorov_like_def by blast
  have "0 < a \<and> a < 1" using a b by simp
  then obtain x where x: "dist_ppf K a = Finite x"
    using K unfolding kolmogorov_like_def by blast
  show ?thesis
  proof (cases "a = b")
    case True
    then show ?thesis using x y by simp
  next
    case False
    then have "0 < a \<and> a < b \<and> b < 1 \<and> dist_ppf K a = Finite x \<and> dist_ppf K b = Finite y"
      using a b x y by simp
    then have "x < y"
      using K unfolding kolmogorov_like_def by blast
    then show ?thesis using x y by simp
  qed
qed

lemma float64_unit_range:
  assumes "0 < p" "p < 1"
  shows "0 < float64 (1 - p) \<and> float64 (1 - p) \<le> 1"
proof (cases "p \<le> 1 / 2 ^ 54")
  case True
  then have "float64 (1 - p) = 1"
    using assms by (intro float64_rounds_to_one) simp_all
  then show ?thesis by simp
next
  case False
  then show ?thesis
    using float64_below_one [of p] assms by simp
qed

lemma threshold_scale:
  assumes "data \<noteq> []" "k \<noteq> 0"
  shows "fdiv (np_mean data) (Finite k) = Finite ((sum_list data / real (length data)) / k)"
  using assms by (simp add: np_mean_def)


lemma threshold_unfold:
  "compute_cfar_threshold K data pfa =
     fmul (dist_ppf K (float64 (1 - pfa))) (fdiv (np_mean data) (Finite (dist_mean K)))"
  by (simp add: compute_cfar_threshold_def Let_def)

lemma threshold_at_half:
  "compute_cfar_threshold ks_table [2, 4] (1 / 2) = Finite (8276 / 10000 * (3 / (8687 / 10000)))"
proof -
  have "float64 (1 - 1 / 2) = 1 / 2"
    using float64_half by simp
  then show ?thesis
    by (simp add: threshold_unfold np_mean_def ks_table_def)
qed

lemma threshold_at_quarter:
  "compute_cfar_threshold ks_table [2, 4] (1 / 4) = Finite (43009 / 40000 * (3 / (8687 / 10000)))"
proof -
  have "float64 (1 - 1 / 4) = 3 / 4"
    using float64_three_quarters by simp
  then show ?thesis
    by (simp add: threshold_unfold np_mean_def ks_table_def)
qed

lemma threshold_at_tiny:
  "compute_cfar_threshold ks_table [2, 4] (1 / 10 ^ 17) = PosInf"
proof -
  have "float64 (1 - 1 / 10 ^ 17) = 1"
    by (rule float64_rounds_to_one) simp_all
  then show ?thesis
    by (simp add: threshold_unfold np_mean_def ks_table_def)
qed


section \<open>generate_clutter_data\<close>

text \<open>
  Claim C3: for every NESZ value in decibels, \<open>generate_clutter_data\<close> returns a mapping
  of exactly 5 sea states, each SampleSet has exactly 1000 elements, and every element is
  at least the linear NESZ floor \<open>10 powr (nesz / 10)\<close>. The Gamma sampler returns the
  requested number of non-negative samples.
\<close>

theorem generate_clutter_data_shape_floor:
  "gamma_sampler rvs \<Longrightarrow>
   length (fst (generate_clutter_data rvs nesz g)) = 5
   \<and> distinct (map fst (fst (generate_clutter_data rvs nesz g)))
   \<and> (\<forall>(k, xs) \<in> set (fst (generate_clutter_data rvs nesz g)).
        length xs = 1000 \<and> (\<forall>x \<in> set xs. 10 powr (nesz / 10) \<le> x))"
proof -
  assume G: "gamma_sampler rvs"
  obtain s1 g1 where e1: "rvs 2 1 1000 g = (s1, g1)" by (cases "rvs 2 1 1000 g")
  obtain s2 g2 where e2: "rvs 2 2 1000 g1 = (s2, g2)" by (cases "rvs 2 2 1000 g1")
  obtain s3 g3 where e3: "rvs 2 3 1000 g2 = (s3, g3)" by (cases "rvs 2 3 1000 g2")
  obtain s4 g4 where e4: "rvs 2 4 1000 g3 = (s4, g4)" by (cases "rvs 2 4 1000 g3")
  obtain s5 g5 where e5: "rvs 2 5 1000 g4 = (s5, g5)" by (cases "rvs 2 5 1000 g4")
  note floors =
    np_add_scalar_floor [OF G e1, of "10 powr (nesz / 10)"]
    np_add_scalar_floor [OF G e2, of "10 powr (nesz / 10)"]
    np_add_scalar_floor [OF G e3, of "10 powr (nesz / 10)"]
    np_add_scalar_floor [OF G e4, of "10 powr (nesz / 10)"]
    np_add_scalar_floor [OF G e5, of "10 powr (nesz / 10)"]
  show ?thesis
    using floors by (simp add: generate_clutter_data_def Let_def e1 e2 e3 e4 e5)
qed

theorem generate_clutter_data_shape_floor_witness:
  "gamma_sampler counter_gamma
   \<and> length (fst (generate_clutter_data counter_gamma (-20) 0)) = 5
   \<and> distinct (map fst (fst (generate_clutter_data counter_gamma (-20) 0)))
   \<and> hd (fst (generate_clutter_data counter_gamma (-20) 0))
       \<in> set (fst (generate_clutter_data counter_gamma (-20) 0))
   \<and> length (snd (hd (fst (generate_clutter_data counter_gamma (-20) 0)))) = 1000
   \<and> 10 powr (-20 / 10) \<le> hd (snd (hd (fst (generate_clutter_data counter_gamma (-20) 0))))"
proof -
  let ?d = "fst (generate_clutter_data counter_gamma (-20) 0)"
  note shape = generate_clutter_data_shape_floor [OF counter_gamma_sampler, of "-20" 0]
  have "?d \<noteq> []"
    using shape by auto
  then have h: "hd ?d \<in> set ?d"
    by simp
  then have l: "length (snd (hd ?d)) = 1000"
    and b: "\<forall>x \<in> set (snd (hd ?d)). 10 powr (-20 / 10) \<le> x"
    using shape by (auto simp add: case_prod_unfold)
  from l have "snd (hd ?d) \<noteq> []"
    by auto
  then have "hd (snd (hd ?d)) \<in> set (snd (hd ?d))"
    by simp
  with b have "10 powr (-20 / 10) \<le> hd (snd (hd ?d))"
    by blast
  with counter_gamma_sampler shape h l show ?thesis
    by simp
qed

section \<open>estimate_pixels\<close>

text \<open>
  Claim C4: \<open>estimate_pixels\<close> computes the ceiling of length / resolution, floored at 1;
  for a fixed positive ground resolution it is monotonically non-decreasing in the target
  length and returns exactly 1 for every length that is at most the ground resolution;
  \<open>estimate_pixels 9.144 10 = 1\<close> and \<open>estimate_pixels 42.672 10 = 5\<close>.
\<close>

theorem estimate_pixels_ceiling_monotone:
  "0 < gr \<Longrightarrow>
     estimate_pixels len gr = Inr (max 1 \<lceil>len / gr\<rceil>)
   \<and> (\<forall>len'. len \<le> len' \<longrightarrow>
         (\<exists>m n. estimate_pixels len gr = Inr m \<and> estimate_pixels len' gr = Inr n \<and> m \<le> n))
   \<and> (len \<le> gr \<longrightarrow> estimate_pixels len gr = Inr 1)
   \<and> estimate_pixels 9.144 10 = Inr 1
   \<and> estimate_pixels 42.672 10 = Inr 5"
proof (intro conjI allI impI)
  assume gr: "0 < gr"
  show "estimate_pixels len gr = Inr (max 1 \<lceil>len / gr\<rceil>)"
    using gr by (simp add: estimate_pixels_def)
  show "estimate_pixels 9.144 10 = Inr 1"
    by (simp add: estimate_pixels_def)
  show "estimate_pixels 42.672 10 = Inr 5"
    by (simp add: estimate_pixels_def)
  { fix len' :: real
    assume le: "len \<le> len'"
    have "len / gr \<le> len' / gr"
      using gr le by (simp add: divide_right_mono)
    then have "\<lceil>len / gr\<rceil> \<le> \<lceil>len' / gr\<rceil>"
      by (rule ceiling_mono)
    then show "\<exists>m n. estimate_pixels len gr = Inr m \<and> estimate_pixels len' gr = Inr n \<and> m \<le> n"
      using gr by (simp add: estimate_pixels_def) }
  { assume "len \<le> gr"
    then have "len / gr \<le> 1"
      using gr by simp
    then have "\<lceil>len / gr\<rceil> \<le> 1"
      by simp
    then show "estimate_pixels len gr = Inr 1"
      using gr by (simp add: estimate_pixels_def) }
qed

theorem estimate_pixels_ceiling_monotone_witness:
  "(0::real) < 10 \<and> (9.144::real) \<le> 42.672 \<and> (9.144::real) \<le> 10
   \<and> estimate_pixels 9.144 10 = Inr 1 \<and> estimate_pixels 42.672 10 = Inr 5
   \<and> estimate_pixels 103.632 10 = Inr 11"
  using estimate_pixels_ceiling_monotone [of 10 "9.144"]
    estimate_pixels_ceiling_monotone [of 10 "103.632"]
  by simp

text \<open>
  Claim C9: \<open>estimate_pixels\<close> accepts every real target length, zero and negative
  lengths included, raises no error and returns an integer that is at least 1; for the
  length 0 of the catalogue entry without a target and for every negative length it
  returns 1. The ground resolution is positive, as the constant 10 of the notebook is.
\<close>

theorem estimate_pixels_total_at_least_one:
  "0 < gr \<Longrightarrow> \<exists>n. estimate_pixels len gr = Inr n \<and> 1 \<le> n \<and> (len \<le> 0 \<longrightarrow> n = 1)"
proof -
  assume gr: "0 < gr"
  have "len \<le> 0 \<Longrightarrow> \<lceil>len / gr\<rceil> \<le> 0"
    using gr by (simp add: divide_le_0_iff)
  then show ?thesis
    using gr by (auto simp add: estimate_pixels_def)
qed

theorem estimate_pixels_total_at_least_one_witness:
  "(0::real) < 10 \<and> (0::real) \<le> 0 \<and> estimate_pixels 0 10 = Inr 1
   \<and> (-5::real) \<le> 0 \<and> estimate_pixels (-5) 10 = Inr 1"
  using estimate_pixels_total_at_least_one [of 10 0]
    estimate_pixels_total_at_least_one [of 10 "-5"]
  by auto

section \<open>compute_cfar_threshold\<close>




text \<open>
  Claim C2: for every fixed non-empty clutter SampleSet (of positive backscatter
  magnitudes), \<open>compute_cfar_threshold\<close> is monotonically decreasing in PFA over (0,1):
  the threshold at a smaller PFA is at least the threshold at a larger one, \<open>inf\<close>
  included. For every positive constant \<open>c\<close>, scaling all clutter values by \<open>c\<close> scales
  the returned threshold by \<open>c\<close> (up to the rounding of finite arithmetic, which the model
  leaves out).
\<close>

theorem compute_cfar_threshold_decreasing_scaling:
  "kolmogorov_like K \<Longrightarrow> clutter_sample_set data \<Longrightarrow>
     (\<forall>p1 p2. 0 < p1 \<and> p1 \<le> p2 \<and> p2 < 1 \<longrightarrow>
        fle (compute_cfar_threshold K data p2) (compute_cfar_threshold K data p1))
   \<and> (\<forall>c pfa. 0 < c \<longrightarrow>
        compute_cfar_threshold K (map ((*) c) data) pfa =
          fmul (Finite c) (compute_cfar_threshold K data pfa))"
proof (intro conjI allI impI)
  fix p1 p2 :: real
  assume K: "kolmogorov_like K" and d: "clutter_sample_set data"
    and p: "0 < p1 \<and> p1 \<le> p2 \<and> p2 < 1"
  have ne: "data \<noteq> []" and pos: "\<forall>x \<in> set data. 0 < x"
    using d by (simp_all add: clutter_sample_set_def)
  have mean: "0 < dist_mean K"
    using K by (simp add: kolmogorov_like_def)
  have "0 < sum_list data"
    using ne pos by (rule sum_list_positive)
  then have s: "0 < (sum_list data / real (length data)) / dist_mean K"
    using ne mean by simp
  have sc: "fdiv (np_mean data) (Finite (dist_mean K)) =
      Finite ((sum_list data / real (length data)) / dist_mean K)"
    using ne mean by (intro threshold_scale) simp_all
  have "0 < 1 - p2" "1 - p2 \<le> 1 - p1"
    using p by simp_all
  then have le: "float64 (1 - p2) \<le> float64 (1 - p1)"
    by (rule float64_mono_pos)
  have r1: "0 < float64 (1 - p1) \<and> float64 (1 - p1) \<le> 1"
    using p by (intro float64_unit_range) simp_all
  have r2: "0 < float64 (1 - p2) \<and> float64 (1 - p2) \<le> 1"
    using p by (intro float64_unit_range) simp_all
  have "fle (dist_ppf K (float64 (1 - p2))) (dist_ppf K (float64 (1 - p1)))"
    using K r2 le r1 by (intro ppf_monotone) simp_all
  then show "fle (compute_cfar_threshold K data p2) (compute_cfar_threshold K data p1)"
    unfolding threshold_unfold sc using s by (intro fmul_mono_right)
next
  fix c pfa :: real
  assume c: "0 < c"
  show "compute_cfar_threshold K (map ((*) c) data) pfa =
          fmul (Finite c) (compute_cfar_threshold K data pfa)"
    unfolding threshold_unfold np_mean_scale using c by (rule fmul_fdiv_scale)
qed

theorem compute_cfar_threshold_decreasing_scaling_witness:
  "kolmogorov_like ks_table \<and> clutter_sample_set [2, 4]
   \<and> (0::real) < 1 / 4 \<and> (1 / 4 :: real) \<le> 1 / 2 \<and> (1 / 2 :: real) < 1
   \<and> compute_cfar_threshold ks_table [2, 4] (1 / 4) = Finite (43009 / 40000 * (3 / (8687 / 10000)))
   \<and> compute_cfar_threshold ks_table [2, 4] (1 / 2) = Finite (8276 / 10000 * (3 / (8687 / 10000)))
   \<and> fle (compute_cfar_threshold ks_table [2, 4] (1 / 2)) (compute_cfar_threshold ks_table [2, 4] (1 / 4))
   \<and> (0::real) < 1 / 10 ^ 17 \<and> (1 / 10 ^ 17 :: real) \<le> 1 / 2
   \<and> compute_cfar_threshold ks_table [2, 4] (1 / 10 ^ 17) = PosInf
   \<and> fle (compute_cfar_threshold ks_table [2, 4] (1 / 2)) (compute_cfar_threshold ks_table [2, 4] (1 / 10 ^ 17))
   \<and> (0::real) < 5
   \<and> compute_cfar_threshold ks_table (map ((*) 5) [2, 4]) (1 / 2) =
       fmul (Finite 5) (compute_cfar_threshold ks_table [2, 4] (1 / 2))
   \<and> clutter_sample_set (snd (hd (fst (generate_clutter_data counter_gamma (- 25) 0))))"
proof -
  have d: "clutter_sample_set [2, 4]"
    by (simp add: clutter_sample_set_def)
  note mono = compute_cfar_threshold_decreasing_scaling [OF ks_table_kolmogorov_like d]
  have "fle (compute_cfar_threshold ks_table [2, 4] (1 / 2)) (compute_cfar_threshold ks_table [2, 4] (1 / 4))"
    using mono by simp
  moreover have "fle (compute_cfar_threshold ks_table [2, 4] (1 / 2))
      (compute_cfar_threshold ks_table [2, 4] (1 / 10 ^ 17))"
    using mono by simp
  moreover have "compute_cfar_threshold ks_table (map ((*) 5) [2, 4]) (1 / 2) =
       fmul (Finite 5) (compute_cfar_threshold ks_table [2, 4] (1 / 2))"
    using mono by (meson zero_less_numeral)
  moreover have "clutter_sample_set (snd (hd (fst (generate_clutter_data counter_gamma (- 25) 0))))"
  proof -
    let ?d = "fst (generate_clutter_data counter_gamma (- 25) 0)"
    have "?d \<noteq> []"
      by (simp add: generate_clutter_data_def Let_def split: prod.splits)
    then have "(fst (hd ?d), snd (hd ?d)) \<in> set ?d"
      by simp
    with counter_gamma_sampler show ?thesis
      by (rule generate_clutter_data_sample_sets)
  qed
  ultimately show ?thesis
    using ks_table_kolmogorov_like d threshold_at_quarter threshold_at_half threshold_at_tiny
    by simp
qed





section \<open>generate_target_data\<close>

text \<open>
  Claim C7 as stated fails: \<open>generate_target_data\<close> called with an absent RCS raises,
  but the exception is Python's TypeError, from the product \<open>None * snr_linear\<close>; the
  notebook defines no MissingTarget error and does not check \<open>rcs\<close>.
\<close>

theorem generate_target_data_absent_rcs_counterexample:
  "generate_target_data counter_rayleigh counter_gamma None 10 1000 11 (- 25) 0 = Inl TypeError
   \<and> exception_name TypeError \<noteq> ''MissingTarget''"
  by (simp add: generate_target_data_def exception_name_def)

text \<open>
  Claim C7, amended: \<open>generate_target_data\<close> called with an absent RCS (\<open>None\<close>) raises
  a TypeError rather than computing a spurious SampleSet.
\<close>

theorem generate_target_data_absent_rcs:
  "generate_target_data rayleigh_rvs gamma_rvs None snr_db size' pixels nesz g = Inl TypeError
   \<and> exception_name TypeError = ''TypeError''"
  by (simp add: generate_target_data_def exception_name_def)

text \<open>
  Claim C5: for every present RCS value, SNR in dB, base sample count, pixel count that is
  at least 1 and NESZ in dB, \<open>generate_target_data\<close> returns a SampleSet of length exactly
  base count times pixel count: the element-wise sum of the Rayleigh samples with location
  \<open>rcs * 10 powr (snr_db / 10) + 10 powr (nesz / 10)\<close> and scale 1.5 and of the
  Gamma(shape 2, scale 2) samples shifted by the linear NESZ floor, the Gamma samples
  drawn from the stream the Rayleigh call leaves.
\<close>

theorem generate_target_data_length_sum:
  "rayleigh_sampler R \<Longrightarrow> gamma_sampler G \<Longrightarrow> 0 \<le> size' \<Longrightarrow> 1 \<le> pixels \<Longrightarrow>
   \<exists>ts g1 cs g2.
      R (r * 10 powr (snr_db / 10) + 10 powr (nesz / 10)) (3 / 2) (size' * pixels) g0 = (ts, g1)
    \<and> G 2 2 (size' * pixels) g1 = (cs, g2)
    \<and> generate_target_data R G (Some r) snr_db size' pixels nesz g0 =
        Inr (map2 (+) ts (map (\<lambda>c. c + 10 powr (nesz / 10)) cs), g2)
    \<and> length (map2 (+) ts (map (\<lambda>c. c + 10 powr (nesz / 10)) cs)) = nat size' * nat pixels"
proof -
  assume R: "rayleigh_sampler R" and G: "gamma_sampler G"
    and s: "0 \<le> size'" and p: "1 \<le> pixels"
  let ?n = "size' * pixels"
  let ?loc = "r * 10 powr (snr_db / 10) + 10 powr (nesz / 10)"
  obtain ts g1 where e1: "R ?loc (3 / 2) ?n g0 = (ts, g1)"
    by (cases "R ?loc (3 / 2) ?n g0")
  obtain cs g2 where e2: "G 2 2 ?n g1 = (cs, g2)"
    by (cases "G 2 2 ?n g1")
  have n: "0 \<le> ?n"
    using s p by simp
  have natn: "nat ?n = nat size' * nat pixels"
    using s by (simp add: nat_mult_distrib)
  have lt: "length ts = nat ?n"
    using R e1 n sampler_length [of R ?n ?loc "3 / 2" g0 ts g1]
    by (simp add: rayleigh_sampler_def)
  have lc: "length cs = nat ?n"
    using G e2 n sampler_length [of G ?n 2 2 g1 cs g2]
    by (simp add: gamma_sampler_def)
  have "generate_target_data R G (Some r) snr_db size' pixels nesz g0 =
        Inr (map2 (+) ts (map (\<lambda>c. c + 10 powr (nesz / 10)) cs), g2)"
    using lt lc
    by (simp add: generate_target_data_def Let_def e1 e2 np_add_scalar_def np_add_def)
  moreover have "length (map2 (+) ts (map (\<lambda>c. c + 10 powr (nesz / 10)) cs)) = nat size' * nat pixels"
    using lt lc natn by simp
  ultimately show ?thesis
    using e1 e2 by blast
qed

theorem generate_target_data_length_sum_witness:
  "rayleigh_sampler counter_rayleigh \<and> gamma_sampler counter_gamma
   \<and> (0::int) \<le> 2 \<and> (1::int) \<le> 3
   \<and> generate_target_data counter_rayleigh counter_gamma (Some 8) 0 2 3 0 0 =
       Inr ([34, 23 / 2, 17, 45 / 2, 28, 26], 12)
   \<and> length [34, 23 / 2, 17, 45 / 2, 28, 26 :: real] = nat 2 * nat 3"
  using generate_target_data_length_sum [of counter_rayleigh counter_gamma 2 3 8 0 0 0]
  by (simp add: rayleigh_sampler_def gamma_sampler_def returns_size_def
      generate_target_data_def counter_rayleigh_def counter_gamma_def np_add_def
      np_add_scalar_def Let_def upt_conv_Cons)

text \<open>
  Claim C10: every element of the SampleSet that \<open>generate_target_data\<close> returns for a
  present RCS is at least \<open>rcs * 10 powr (snr_db / 10) + 2 * 10 powr (nesz / 10)\<close>, since
  Rayleigh samples are at least their location parameter and Gamma samples are
  non-negative.
\<close>

theorem generate_target_data_lower_bound:
  "rayleigh_sampler R \<Longrightarrow> gamma_sampler G \<Longrightarrow>
   generate_target_data R G (Some r) snr_db size' pixels nesz g0 = Inr (out, g') \<Longrightarrow>
   \<forall>x \<in> set out. r * 10 powr (snr_db / 10) + 2 * 10 powr (nesz / 10) \<le> x"
proof
  fix x
  assume R: "rayleigh_sampler R" and G: "gamma_sampler G"
    and ret: "generate_target_data R G (Some r) snr_db size' pixels nesz g0 = Inr (out, g')"
    and x: "x \<in> set out"
  let ?n = "size' * pixels"
  let ?fl = "10 powr (nesz / 10)"
  let ?loc = "r * 10 powr (snr_db / 10) + ?fl"
  obtain ts g1 where e1: "R ?loc (3 / 2) ?n g0 = (ts, g1)"
    by (cases "R ?loc (3 / 2) ?n g0")
  obtain cs g2 where e2: "G 2 2 ?n g1 = (cs, g2)"
    by (cases "G 2 2 ?n g1")
  have add: "np_add ts (np_add_scalar cs ?fl) = Inr out"
    using ret by (simp add: generate_target_data_def Let_def e1 e2 split: sum.splits)
  have t: "\<forall>t \<in> set ts. ?loc \<le> t"
    using rayleigh_sampler_lower [OF R _ e1] by simp
  have "\<forall>c \<in> set cs. 0 \<le> c"
    using gamma_sampler_nonneg [OF G e2] by blast
  then have c: "\<forall>c \<in> set (np_add_scalar cs ?fl). ?fl \<le> c"
    by (auto simp add: np_add_scalar_def)
  have "?loc + ?fl \<le> x"
    using add t c x by (rule np_add_lower)
  then show "r * 10 powr (snr_db / 10) + 2 * 10 powr (nesz / 10) \<le> x"
    by simp
qed

theorem generate_target_data_lower_bound_witness:
  "rayleigh_sampler counter_rayleigh \<and> gamma_sampler counter_gamma
   \<and> generate_target_data counter_rayleigh counter_gamma (Some 8) 0 2 3 0 0 =
       Inr ([34, 23 / 2, 17, 45 / 2, 28, 26], 12)
   \<and> (23 / 2 :: real) \<in> set [34, 23 / 2, 17, 45 / 2, 28, 26]
   \<and> 8 * 10 powr (0 / 10) + 2 * 10 powr (0 / 10) \<le> (23 / 2 :: real)"
  using generate_target_data_lower_bound
    [of counter_rayleigh counter_gamma 8 0 2 3 0 0 "[34, 23 / 2, 17, 45 / 2, 28, 26]" 12]
  by (simp add: rayleigh_sampler_def gamma_sampler_def returns_size_def
      generate_target_data_def counter_rayleigh_def counter_gamma_def np_add_def
      np_add_scalar_def Let_def upt_conv_Cons)


section \<open>compute_roc_curve\<close>

lemma count_zip_replicate:
  "length (filter (\<lambda>(y, d). Q y \<and> R d) (zip (replicate (length xs) a) (map P xs))) =
     (if Q a then length (filter (\<lambda>s. R (P s)) xs) else 0)"
  by (induction xs) auto

lemma zip_labels:
  "zip (np_zeros_like c @ np_ones_like t) (map P (c @ t)) =
     zip (replicate (length c) 0) (map P c) @ zip (replicate (length t) 1) (map P t)"
  by (simp add: np_zeros_like_def np_ones_like_def)

lemma fps_count:
  "length (filter (\<lambda>(y, d). y \<noteq> (1::real) \<and> v \<le> d) (zip (np_zeros_like c @ np_ones_like t) (map P (c @ t))))
     = length (filter (\<lambda>s. v \<le> P s) c)"
  unfolding zip_labels filter_append length_append
  using count_zip_replicate[of "\<lambda>y. y \<noteq> (1::real)" "\<lambda>d. v \<le> d" c 0 P]
        count_zip_replicate[of "\<lambda>y. y \<noteq> (1::real)" "\<lambda>d. v \<le> d" t 1 P]
  by simp

lemma tps_count:
  "length (filter (\<lambda>(y, d). y = (1::real) \<and> v \<le> d) (zip (np_zeros_like c @ np_ones_like t) (map P (c @ t))))
     = length (filter (\<lambda>s. v \<le> P s) t)"
  unfolding zip_labels filter_append length_append
  using count_zip_replicate[of "\<lambda>y. y = (1::real)" "\<lambda>d. v \<le> d" c 0 P]
        count_zip_replicate[of "\<lambda>y. y = (1::real)" "\<lambda>d. v \<le> d" t 1 P]
  by simp

lemma levels_last:
  assumes "s \<in> set xs"
  shows "last (filter (\<lambda>v. v \<in> P ` set xs) [True, False]) \<le> P s"
proof (cases "False \<in> P ` set xs")
  case True
  then have "last (filter (\<lambda>v. v \<in> P ` set xs) [True, False]) = False"
    by (cases "True \<in> P ` set xs") simp_all
  then show ?thesis by simp
next
  case False
  then have "P s" using assms by (metis (full_types) imageI)
  then show ?thesis by (simp add: le_bool_def)
qed

lemma levels_nonempty:
  assumes "xs \<noteq> []"
  shows "filter (\<lambda>v. v \<in> P ` set xs) [True, False] \<noteq> []"
proof -
  obtain x where "x \<in> set xs" using assms by (cases xs) auto
  then have "P x \<in> P ` set xs" by simp
  then show ?thesis by (cases "P x") auto
qed

lemma roc_curve_binary:
  assumes c: "c \<noteq> []" and t: "t \<noteq> []"
  shows "roc_curve (np_zeros_like c @ np_ones_like t) (map P (c @ t)) =
    Some (0 # map (\<lambda>v. real (length (filter (\<lambda>s. v \<le> P s) c)) / real (length c))
                 (filter (\<lambda>v. v \<in> P ` set (c @ t)) [True, False]),
          0 # map (\<lambda>v. real (length (filter (\<lambda>s. v \<le> P s) t)) / real (length t))
                 (filter (\<lambda>v. v \<in> P ` set (c @ t)) [True, False]))"
proof -
  define L where "L = filter (\<lambda>v. v \<in> P ` set (c @ t)) [True, False]"
  define F where "F = (\<lambda>v. real (length (filter (\<lambda>s. v \<le> P s) c)))"
  define T where "T = (\<lambda>v. real (length (filter (\<lambda>s. v \<le> P s) t)))"
  have ne: "L \<noteq> []"
    unfolding L_def using c by (intro levels_nonempty) simp
  have "\<forall>s \<in> set c. last L \<le> P s"
    unfolding L_def by (intro ballI levels_last) simp
  then have allc: "filter (\<lambda>s. last L \<le> P s) c = c"
    by (rule filter_True)
  have "\<forall>s \<in> set t. last L \<le> P s"
    unfolding L_def by (intro ballI levels_last) simp
  then have allt: "filter (\<lambda>s. last L \<le> P s) t = t"
    by (rule filter_True)
  have "last (0 # map F L) = F (last L)"
    using ne by (simp add: last_map)
  then have lf: "last (0 # map F L) = real (length c)"
    unfolding F_def by (simp only: allc)
  have "last (0 # map T L) = T (last L)"
    using ne by (simp add: last_map)
  then have lt: "last (0 # map T L) = real (length t)"
    unfolding T_def by (simp only: allt)
  have "roc_curve (np_zeros_like c @ np_ones_like t) (map P (c @ t)) =
     (if last (0 # map F L) \<le> 0 \<or> last (0 # map T L) \<le> 0 then None
      else Some (map (\<lambda>x. x / last (0 # map F L)) (0 # map F L),
                 map (\<lambda>x. x / last (0 # map T L)) (0 # map T L)))"
    by (simp only: roc_curve_def Let_def set_map fps_count tps_count L_def F_def T_def)
  also have "\<dots> = Some (map (\<lambda>x. x / real (length c)) (0 # map F L),
                 map (\<lambda>x. x / real (length t)) (0 # map T L))"
    unfolding lf lt using c t by simp
  also have "\<dots> = Some (0 # map (\<lambda>v. F v / real (length c)) L, 0 # map (\<lambda>v. T v / real (length t)) L)"
    by (simp add: comp_def)
  finally show ?thesis
    unfolding L_def F_def T_def .
qed

lemma compute_roc_curve_auc:
  assumes c: "c \<noteq> []" and t: "t \<noteq> []"
  shows "\<exists>fpr tpr. compute_roc_curve c t th =
           Some (fpr, tpr, (1 + detection_rate t th - detection_rate c th) / 2)"
proof -
  define P where "P = (\<lambda>s. th \<le> s)"
  define L where "L = filter (\<lambda>v. v \<in> P ` set (c @ t)) [True, False]"
  define f where "f = (\<lambda>v. real (length (filter (\<lambda>s. v \<le> P s) c)) / real (length c))"
  define g where "g = (\<lambda>v. real (length (filter (\<lambda>s. v \<le> P s) t)) / real (length t))"
  have roc: "roc_curve (np_zeros_like c @ np_ones_like t) (map P (c @ t)) = Some (0 # map f L, 0 # map g L)"
    unfolding L_def f_def g_def using c t by (rule roc_curve_binary)
  have res: "compute_roc_curve c t th = Some (0 # map f L, 0 # map g L, trapz (0 # map g L) (0 # map f L))"
    using roc by (simp add: compute_roc_curve_def Let_def auc_def P_def)
  have fT: "f True = detection_rate c th" and gT: "g True = detection_rate t th"
    by (simp_all add: f_def g_def detection_rate_def P_def)
  have fF: "f False = 1" and gF: "g False = 1"
    using c t by (simp_all add: f_def g_def)
  have ne: "L \<noteq> []"
    unfolding L_def using c by (intro levels_nonempty) simp
  consider (both) "L = [True, False]"
    | (onlyT) "L = [True]" "\<forall>s \<in> set (c @ t). P s"
    | (onlyF) "L = [False]" "\<forall>s \<in> set (c @ t). \<not> P s"
  proof (cases "True \<in> P ` set (c @ t)"; cases "False \<in> P ` set (c @ t)")
    assume "True \<in> P ` set (c @ t)" "False \<in> P ` set (c @ t)"
    then have "L = [True, False]" by (simp add: L_def)
    then show ?thesis by (rule that(1))
  next
    assume a: "True \<in> P ` set (c @ t)" "False \<notin> P ` set (c @ t)"
    then have "L = [True]" by (simp add: L_def)
    moreover have "\<forall>s \<in> set (c @ t). P s" using a(2) by (metis (full_types) imageI)
    ultimately show ?thesis by (rule that(2))
  next
    assume a: "True \<notin> P ` set (c @ t)" "False \<in> P ` set (c @ t)"
    then have "L = [False]" by (simp add: L_def)
    moreover have "\<forall>s \<in> set (c @ t). \<not> P s" using a(1) by (metis (full_types) imageI)
    ultimately show ?thesis by (rule that(3))
  next
    assume "True \<notin> P ` set (c @ t)" "False \<notin> P ` set (c @ t)"
    then have "L = []" by (simp add: L_def)
    then show ?thesis using ne by simp
  qed
  then have "trapz (0 # map g L) (0 # map f L) = (1 + detection_rate t th - detection_rate c th) / 2"
  proof cases
    case both
    then show ?thesis
      by (simp add: fT gT fF gF field_simps)
  next
    case onlyT
    then have "filter P c = c" "filter P t = t" by simp_all
    then have "detection_rate c th = 1" "detection_rate t th = 1"
      using c t by (simp_all add: detection_rate_def P_def)
    then show ?thesis using onlyT(1) by (simp add: fT gT)
  next
    case onlyF
    then have "filter P c = []" "filter P t = []" by simp_all
    then have "detection_rate c th = 0" "detection_rate t th = 0"
      by (simp_all add: detection_rate_def P_def)
    then show ?thesis using onlyF(1) by (simp add: fF gF)
  qed
  then show ?thesis using res by simp
qed

text \<open>
  Claim C6: \<open>compute_roc_curve\<close>, given a non-empty clutter SampleSet and a non-empty
  target SampleSet with a threshold: the decision per sample is (sample value \<ge>
  threshold), the ROC curve is computed from the labels 0 (clutter) and 1 (target), and the
  AUC is the trapezoidal integral of the curve; when the clutter and target arrays are
  identical the AUC is 0.5; when every target sample is at or above the threshold and
  every clutter sample is below it the AUC is 1.
\<close>

theorem compute_roc_curve_auc_cases:
  "clutter_data \<noteq> [] \<Longrightarrow> target_data \<noteq> [] \<Longrightarrow>
     compute_roc_curve clutter_data target_data th =
       (case roc_curve (replicate (length clutter_data) 0 @ replicate (length target_data) 1)
               (map (\<lambda>s. th \<le> s) (clutter_data @ target_data)) of
          None \<Rightarrow> None
        | Some (fpr, tpr) \<Rightarrow> Some (fpr, tpr, trapz tpr fpr))
   \<and> (clutter_data = target_data \<longrightarrow>
        (\<exists>fpr tpr. compute_roc_curve clutter_data target_data th = Some (fpr, tpr, 1 / 2)))
   \<and> ((\<forall>s \<in> set target_data. th \<le> s) \<and> (\<forall>s \<in> set clutter_data. s < th) \<longrightarrow>
        (\<exists>fpr tpr. compute_roc_curve clutter_data target_data th = Some (fpr, tpr, 1)))"
proof (intro conjI impI)
  assume c: "clutter_data \<noteq> []" and t: "target_data \<noteq> []"
  note auc = compute_roc_curve_auc [OF c t, of th]
  show "compute_roc_curve clutter_data target_data th =
       (case roc_curve (replicate (length clutter_data) 0 @ replicate (length target_data) 1)
               (map (\<lambda>s. th \<le> s) (clutter_data @ target_data)) of
          None \<Rightarrow> None
        | Some (fpr, tpr) \<Rightarrow> Some (fpr, tpr, trapz tpr fpr))"
    unfolding compute_roc_curve_def Let_def np_zeros_like_def np_ones_like_def auc_def
    by simp
  { assume "clutter_data = target_data"
    then show "\<exists>fpr tpr. compute_roc_curve clutter_data target_data th = Some (fpr, tpr, 1 / 2)"
      using auc by simp }
  { assume sep: "(\<forall>s \<in> set target_data. th \<le> s) \<and> (\<forall>s \<in> set clutter_data. s < th)"
    then have "filter (\<lambda>s. th \<le> s) target_data = target_data"
      by simp
    then have dt: "detection_rate target_data th = 1"
      using t by (simp add: detection_rate_def)
    have "filter (\<lambda>s. th \<le> s) clutter_data = []"
      using sep by (simp add: not_le)
    then have dc: "detection_rate clutter_data th = 0"
      by (simp add: detection_rate_def)
    show "\<exists>fpr tpr. compute_roc_curve clutter_data target_data th = Some (fpr, tpr, 1)"
      using auc by (simp add: dt dc) }
qed

theorem compute_roc_curve_auc_cases_witness:
  "[1, 2 :: real] \<noteq> [] \<and> [3, 4 :: real] \<noteq> []
   \<and> (3::real) \<le> 3 \<and> (3::real) \<le> 4 \<and> (1::real) < 3 \<and> (2::real) < 3
   \<and> compute_roc_curve [1, 2] [3, 4] 3 = Some ([0, 0, 1], [0, 1, 1], 1)
   \<and> compute_roc_curve [1, 3] [1, 3] 2 = Some ([0, 1 / 2, 1], [0, 1 / 2, 1], 1 / 2)"
  using compute_roc_curve_auc_cases [of "[1, 2]" "[3, 4]" 3]
    compute_roc_curve_auc_cases [of "[1, 3]" "[1, 3]" 2]
  by (simp add: compute_roc_curve_def roc_curve_def np_zeros_like_def np_ones_like_def
      auc_def Let_def)

end
